theory Spec2Isabelle
  imports Complex_Main
begin

section \<open>The continuous optimisation loop of finch (\<^verbatim>\<open>src/finch/run_continuous.py\<close>)\<close>

text \<open>
  The module drives a hill-climbing painter: an outer loop picks a target image, an inner
  loop asks \<^verbatim>\<open>iterate_image\<close> for a candidate and keeps it when its score is lower, and a
  wait loop idles between two images. A rendering thread shares one \<^verbatim>\<open>State\<close> object with
  the loops and sets its three control flags.

  What the loops read from outside (the flags written by the rendering thread, the clock,
  the random generator, the candidate of \<^verbatim>\<open>iterate_image\<close>) is given to the model as a
  script: one record for each pass of a loop. A loop that is still running when its script
  ends has the value \<open>None\<close>. Scores and clock readings are Python floats; they are
  modelled as reals, so NaN and rounding are outside the model.
\<close>

subsection \<open>Constants\<close>

definition MAXIMUM_TIME_PER_IMAGE_SECONDS :: real where
  "MAXIMUM_TIME_PER_IMAGE_SECONDS = 10 * 60"

definition WAIT_BETWEEN_IMAGES_SECONDS :: real where
  "WAIT_BETWEEN_IMAGES_SECONDS = 1 * 60"

subsection \<open>Data\<close>

text \<open>
  \<open>IndexError\<close> is what \<^verbatim>\<open>random.choice\<close> raises on an empty sequence.
  \<open>NoCandidateImages\<close> is the error the specification names for an empty directory; no
  path of the source raises it.
\<close>

datatype error = IndexError | NoCandidateImages

record 'sp Specimen =
  strokes :: 'sp
  is_placeholder :: bool

record ('sp, 'img, 'br) State =
  img_path :: string
  brush :: 'br
  target_image :: 'img
  specimen :: "'sp Specimen"
  score :: real
  image_available :: bool
  update_time_microseconds :: int
  flag_stop :: bool
  flag_next_image :: bool
  lock_image :: bool

text \<open>
  The local variables of \<^verbatim>\<open>run_continuous_finch\<close>: two are set once, before the outer
  loop (lines 37-38); three are set again for every image (lines 54-57).
\<close>

record counters =
  n_iterations_with_same_score :: nat
  last_update_time :: int

record 'fit image_vars =
  fitness :: 'fit
  generation_index :: nat
  image_start_time :: real

subsection \<open>The image selector (lines 142-147)\<close>

text \<open>\<^verbatim>\<open>os.path.join\<close> on two components.\<close>

definition join :: "string \<Rightarrow> string \<Rightarrow> string" where
  "join a b =
     (if b \<noteq> [] \<and> hd b = CHR ''/'' then b
      else if a = [] \<or> last a = CHR ''/'' then a @ b
      else a @ ''/'' @ b)"

text \<open>A name as \<^verbatim>\<open>listdir\<close> returns it: not empty, without a separator.\<close>

definition valid_name :: "string \<Rightarrow> bool" where
  "valid_name f = (f \<noteq> [] \<and> CHR ''/'' \<notin> set f)"

text \<open>
  \<^verbatim>\<open>random.choice\<close>: raises on an empty sequence, otherwise takes the next draw of the
  generator. \<open>None\<close>: the script of draws is used up.
\<close>

fun random_choice :: "'a list \<Rightarrow> nat list \<Rightarrow> (error + 'a \<times> nat list) option" where
  "random_choice [] draws = Some (Inl IndexError)"
| "random_choice (x # xs) [] = None"
| "random_choice (x # xs) (r # rest) = Some (Inr ((x # xs) ! (r mod length (x # xs)), rest))"

text \<open>The list comprehension of line 143; \<open>files\<close> are the regular files of the folder.\<close>

definition img_paths :: "string \<Rightarrow> string list \<Rightarrow> string list" where
  "img_paths image_folder files = map (join image_folder) files"

text \<open>The retry loop of lines 145-146; \<open>path\<close> is the local \<^verbatim>\<open>img_path\<close>.\<close>

function retry_loop :: "string list \<Rightarrow> string \<Rightarrow> string \<Rightarrow> nat list
    \<Rightarrow> (error + string \<times> nat list) option" where
  "retry_loop paths previous path draws =
     (if path = previous then
        (case random_choice paths draws of
           None \<Rightarrow> None
         | Some (Inl e) \<Rightarrow> Some (Inl e)
         | Some (Inr (chosen, rest)) \<Rightarrow> retry_loop paths previous chosen rest)
      else Some (Inr (path, draws)))"
  by pat_completeness auto
termination
  by (relation "measure (\<lambda>(paths, previous, path, draws). length draws)")
     (auto elim!: random_choice.elims)

declare retry_loop.simps [simp del]

definition get_random_image_path :: "string \<Rightarrow> string list \<Rightarrow> string \<Rightarrow> nat list
    \<Rightarrow> (error + string \<times> nat list) option" where
  "get_random_image_path image_folder files previous draws =
     retry_loop (img_paths image_folder files) previous previous draws"

subsection \<open>Collaborators\<close>

text \<open>
  The functions this module imports from the rest of the package and from OpenCV. Their
  code is not part of the module, so each one is a parameter of the model.
\<close>

record ('sp, 'img, 'grad, 'fit) collaborators =
  imread :: "string \<Rightarrow> 'img"
  get_window_size :: "bool \<Rightarrow> nat \<times> nat"
  scale_to_dimension :: "'img \<Rightarrow> nat \<times> nat \<Rightarrow> 'img"
  blur :: "'img \<Rightarrow> nat \<times> nat \<Rightarrow> 'img"
  ImageGradient :: "'img \<Rightarrow> 'grad"
  get_initial_specimen :: "'img \<Rightarrow> bool \<Rightarrow> 'sp Specimen"
  get_fitness :: "'sp Specimen \<Rightarrow> 'img \<Rightarrow> 'fit"
  is_drawing_finished :: "nat \<Rightarrow> real \<Rightarrow> bool"

definition FULLSCREEN :: bool where
  "FULLSCREEN = True"

text \<open>Lines 150-155.\<close>

definition prep_image :: "('sp, 'img, 'grad, 'fit) collaborators \<Rightarrow> string \<Rightarrow> 'img \<times> 'grad" where
  "prep_image c path =
     (let image = imread c path;
          dimension = get_window_size c FULLSCREEN;
          image = scale_to_dimension c image dimension;
          image = blur c image (5, 5)
      in (image, ImageGradient c image))"

subsection \<open>Initialisation for the next image (lines 120-139)\<close>

text \<open>
  \<^verbatim>\<open>preload_brush_textures_for_brush_set\<close> fills a cache outside the shared state and is
  left out. The result carries the draws the generator has left.
\<close>

definition initialize_for_next_image ::
  "('sp, 'img, 'grad, 'fit) collaborators \<Rightarrow> string \<Rightarrow> 'br list \<Rightarrow> ('sp, 'img, 'br) State
    \<Rightarrow> string list \<Rightarrow> nat list
    \<Rightarrow> (error + (('sp, 'img, 'br) State \<times> 'img \<times> 'grad \<times> 'fit) \<times> nat list) option" where
  "initialize_for_next_image c image_folder brush_sets shared_state files draws =
     (case get_random_image_path image_folder files (img_path shared_state) draws of
        None \<Rightarrow> None
      | Some (Inl e) \<Rightarrow> Some (Inl e)
      | Some (Inr (path, draws1)) \<Rightarrow>
          (let s1 = shared_state\<lparr>img_path := path\<rparr> in
           case random_choice brush_sets draws1 of
             None \<Rightarrow> None
           | Some (Inl e) \<Rightarrow> Some (Inl e)
           | Some (Inr (b, draws2)) \<Rightarrow>
               (let s2 = s1\<lparr>brush := b\<rparr>;
                    (target, target_gradient) = prep_image c (img_path s2);
                    s3 = s2\<lparr>target_image := target\<rparr>;
                    s4 = (if is_placeholder (specimen s3)
                          then s3\<lparr>specimen := (get_initial_specimen c target False)\<lparr>is_placeholder := False\<rparr>\<rparr>
                          else s3);
                    s5 = s4\<lparr>score := 9999999\<rparr>
                in Some (Inr ((s5, target, target_gradient, get_fitness c (specimen s5) target),
                              draws2)))))"

subsection \<open>One pass of the per-image loop (lines 59-101)\<close>

text \<open>
  What one pass reads from outside: the three flags and the clock in the loop condition
  (lines 60-62), the result of \<^verbatim>\<open>iterate_image\<close> (line 67), \<^verbatim>\<open>datetime.now()\<close> in
  microseconds (line 86) and \<^verbatim>\<open>lock_image\<close> once more in the convergence check (line 96).
\<close>

record ('sp, 'fit) tick =
  stop_seen :: bool
  next_image_seen :: bool
  lock_seen :: bool
  clock :: real
  new_specimen :: "'sp Specimen"
  new_fitness :: 'fit
  new_score :: real
  now :: int
  lock_seen_at_check :: bool

text \<open>Lines 77-84: only keep the new version if it is an improvement.\<close>

definition keep_if_improvement ::
  "('sp, 'img, 'br) State \<Rightarrow> counters \<Rightarrow> 'fit image_vars \<Rightarrow> ('sp, 'fit) tick
    \<Rightarrow> ('sp, 'img, 'br) State \<times> counters \<times> 'fit image_vars" where
  "keep_if_improvement shared_state cnt iv t =
     (if new_score t \<ge> score shared_state then
        (shared_state,
         cnt\<lparr>n_iterations_with_same_score := n_iterations_with_same_score cnt + 1\<rparr>,
         iv)
      else
        (shared_state\<lparr>score := new_score t, specimen := new_specimen t, image_available := True\<rparr>,
         cnt\<lparr>n_iterations_with_same_score := 0\<rparr>,
         iv\<lparr>fitness := new_fitness t\<rparr>))"

text \<open>
  Lines 64-88. \<^verbatim>\<open>timedelta.microseconds\<close> is the sub-second component of the
  difference, between 0 and 999999.
\<close>

definition iteration ::
  "('sp, 'img, 'br) State \<Rightarrow> counters \<Rightarrow> 'fit image_vars \<Rightarrow> ('sp, 'fit) tick
    \<Rightarrow> ('sp, 'img, 'br) State \<times> counters \<times> 'fit image_vars" where
  "iteration shared_state cnt iv t =
     (let iv1 = iv\<lparr>generation_index := generation_index iv + 1\<rparr>;
          (s2, cnt2, iv2) = keep_if_improvement shared_state cnt iv1 t;
          s3 = s2\<lparr>update_time_microseconds := (now t - last_update_time cnt2) mod 1000000\<rparr>;
          cnt3 = cnt2\<lparr>last_update_time := now t\<rparr>
      in (s3, cnt3, iv2))"

text \<open>The rendering thread's flags as the loop condition reads them.\<close>

definition observe :: "('sp, 'img, 'br) State \<Rightarrow> ('sp, 'fit) tick \<Rightarrow> ('sp, 'img, 'br) State" where
  "observe shared_state t =
     shared_state\<lparr>flag_stop := stop_seen t, flag_next_image := next_image_seen t,
                  lock_image := lock_seen t\<rparr>"

text \<open>The condition of lines 59-63.\<close>

definition loop_condition :: "('sp, 'img, 'br) State \<Rightarrow> 'fit image_vars \<Rightarrow> real \<Rightarrow> bool" where
  "loop_condition shared_state iv time =
     (\<not> flag_stop shared_state \<and> \<not> flag_next_image shared_state
      \<and> (lock_image shared_state \<or> time - image_start_time iv < MAXIMUM_TIME_PER_IMAGE_SECONDS))"

text \<open>
  The loop of lines 59-101. The sleep of lines 99-101 changes no variable and is left out.
  \<open>None\<close>: the loop is still running when the script ends.
\<close>

fun image_loop ::
  "(nat \<Rightarrow> real \<Rightarrow> bool) \<Rightarrow> ('sp, 'img, 'br) State \<Rightarrow> counters \<Rightarrow> 'fit image_vars
    \<Rightarrow> ('sp, 'fit) tick list \<Rightarrow> (('sp, 'img, 'br) State \<times> counters \<times> 'fit image_vars) option" where
  "image_loop finished shared_state cnt iv [] = None"
| "image_loop finished shared_state cnt iv (t # ts) =
     (let s1 = observe shared_state t in
      if \<not> loop_condition s1 iv (clock t) then Some (s1, cnt, iv)
      else
        (let (s2, cnt2, iv2) = iteration s1 cnt iv t;
             s3 = s2\<lparr>lock_image := lock_seen_at_check t\<rparr>
         in if \<not> lock_image s3 \<and> finished (n_iterations_with_same_score cnt2) (score s3)
            then Some (s3, cnt2, iv2)
            else image_loop finished s3 cnt2 iv2 ts))"

subsection \<open>The wait between two images (lines 158-170)\<close>

record poll =
  lock_polled :: bool
  time_polled :: real
  stop_polled :: bool
  next_image_polled :: bool

text \<open>
  One element of the script for each evaluation of the loop condition; between two of them
  the loop sleeps one second. \<open>None\<close>: still waiting when the script ends.
\<close>

fun wait_loop :: "('sp, 'img, 'br) State \<Rightarrow> real \<Rightarrow> poll list \<Rightarrow> ('sp, 'img, 'br) State option" where
  "wait_loop shared_state wait_start [] = None"
| "wait_loop shared_state wait_start (p # ps) =
     (let s1 = shared_state\<lparr>flag_stop := stop_polled p, flag_next_image := next_image_polled p,
                            lock_image := lock_polled p\<rparr>
      in if lock_image s1
            \<or> (time_polled p - wait_start < WAIT_BETWEEN_IMAGES_SECONDS
                \<and> \<not> flag_stop s1 \<and> \<not> flag_next_image s1)
         then wait_loop s1 wait_start ps
         else Some s1)"

text \<open>\<open>time\<close> is the reading of \<^verbatim>\<open>time.time()\<close> at line 164.\<close>

definition wait_for_next_image ::
  "('sp, 'img, 'br) State \<Rightarrow> real \<Rightarrow> poll list \<Rightarrow> ('sp, 'img, 'br) State option" where
  "wait_for_next_image shared_state time polls = wait_loop shared_state time polls"

subsection \<open>The outer loop (lines 36-106)\<close>

text \<open>
  What one pass of the outer loop reads from outside: \<^verbatim>\<open>flag_stop\<close> at line 53, the
  regular files of the folder, the draws of the random generator, the clock at line 57, the
  passes of the per-image loop, the clock at line 164 and the polls of the wait.
\<close>

record ('sp, 'fit) session =
  stop_seen_first :: bool
  listed_files :: "string list"
  random_draws :: "nat list"
  start_clock :: real
  loop_passes :: "('sp, 'fit) tick list"
  wait_clock :: real
  wait_polls :: "poll list"

text \<open>
  \<open>None\<close>: the program is still running when the script ends. \<open>Some (Inl e)\<close>: the
  exception \<open>e\<close> ended it. \<open>Some (Inr _)\<close>: the outer loop has ended on \<^verbatim>\<open>flag_stop\<close>.
\<close>

fun outer_loop ::
  "('sp, 'img, 'grad, 'fit) collaborators \<Rightarrow> string \<Rightarrow> 'br list \<Rightarrow> ('sp, 'img, 'br) State
    \<Rightarrow> counters \<Rightarrow> ('sp, 'fit) session list
    \<Rightarrow> (error + ('sp, 'img, 'br) State \<times> counters) option" where
  "outer_loop c image_folder brush_sets shared_state cnt [] = None"
| "outer_loop c image_folder brush_sets shared_state cnt (x # xs) =
     (let s0 = shared_state\<lparr>flag_stop := stop_seen_first x\<rparr> in
      if flag_stop s0 then Some (Inr (s0, cnt))
      else
        (case initialize_for_next_image c image_folder brush_sets s0 (listed_files x) (random_draws x) of
           None \<Rightarrow> None
         | Some (Inl e) \<Rightarrow> Some (Inl e)
         | Some (Inr ((s1, target, target_gradient, fit), _)) \<Rightarrow>
             (let iv = \<lparr>fitness = fit, generation_index = 0, image_start_time = start_clock x\<rparr> in
              case image_loop (is_drawing_finished c) s1 cnt iv (loop_passes x) of
                None \<Rightarrow> None
              | Some (s2, cnt2, iv2) \<Rightarrow>
                  (case wait_for_next_image s2 (wait_clock x) (wait_polls x) of
                     None \<Rightarrow> None
                   | Some s3 \<Rightarrow>
                       outer_loop c image_folder brush_sets (s3\<lparr>flag_next_image := False\<rparr>) cnt2 xs))))"

text \<open>
  Lines 109-117. The class \<^verbatim>\<open>State\<close> is defined in another module; \<open>defaults\<close> holds
  the fields its constructor fills in by itself.
\<close>

definition initial_shared_state_object ::
  "('sp, 'img, 'grad, 'fit) collaborators \<Rightarrow> 'br \<Rightarrow> 'img \<Rightarrow> ('sp, 'img, 'br) State
    \<Rightarrow> ('sp, 'img, 'br) State" where
  "initial_shared_state_object c canvas empty_image defaults =
     defaults\<lparr>img_path := '''', brush := canvas, target_image := empty_image,
              specimen := get_initial_specimen c empty_image True\<rparr>"

text \<open>\<open>time\<close> is the reading of \<^verbatim>\<open>datetime.now()\<close> at line 38.\<close>

definition run_continuous_finch ::
  "('sp, 'img, 'grad, 'fit) collaborators \<Rightarrow> 'br \<Rightarrow> 'img \<Rightarrow> ('sp, 'img, 'br) State \<Rightarrow> int
    \<Rightarrow> string \<Rightarrow> 'br list \<Rightarrow> ('sp, 'fit) session list
    \<Rightarrow> (error + ('sp, 'img, 'br) State \<times> counters) option" where
  "run_continuous_finch c canvas empty_image defaults time image_folder brush_sets script =
     outer_loop c image_folder brush_sets
       (initial_shared_state_object c canvas empty_image defaults)
       \<lparr>n_iterations_with_same_score = 0, last_update_time = time\<rparr>
       script"

subsection \<open>Concrete inputs\<close>

text \<open>
  Small values on which the theorems below are evaluated: images, brushes, strokes and
  fitness states are numbers, and a drawing counts as finished after three passes in a row
  without improvement.
\<close>

definition example_collaborators :: "(nat, nat, nat, nat) collaborators" where
  "example_collaborators =
     \<lparr>imread = length,
      get_window_size = (\<lambda>full. (1920, 1080)),
      scale_to_dimension = (\<lambda>image dimension. image),
      blur = (\<lambda>image kernel. image),
      ImageGradient = (\<lambda>image. image),
      get_initial_specimen = (\<lambda>image placeholder. \<lparr>strokes = 0, is_placeholder = placeholder\<rparr>),
      get_fitness = (\<lambda>s image. 0),
      is_drawing_finished = (\<lambda>n s. 3 \<le> n)\<rparr>"

text \<open>A shared state in the middle of the work on an image, with score 50.\<close>

definition example_state :: "(nat, nat, nat) State" where
  "example_state =
     \<lparr>img_path = ''img/a.png'', brush = 0, target_image = 9,
      specimen = \<lparr>strokes = 1, is_placeholder = False\<rparr>, score = 50,
      image_available = True, update_time_microseconds = 0,
      flag_stop = False, flag_next_image = False, lock_image = False\<rparr>"

definition example_counters :: counters where
  "example_counters = \<lparr>n_iterations_with_same_score = 2, last_update_time = 0\<rparr>"

definition example_vars :: "nat image_vars" where
  "example_vars = \<lparr>fitness = 1, generation_index = 5, image_start_time = 0\<rparr>"

text \<open>
  A pass in which no flag is set but possibly the lock, at clock reading \<open>k\<close>, with a
  candidate of score \<open>s\<close>.
\<close>

definition example_tick :: "bool \<Rightarrow> real \<Rightarrow> real \<Rightarrow> (nat, nat) tick" where
  "example_tick locked k s =
     \<lparr>stop_seen = False, next_image_seen = False, lock_seen = locked, clock = k,
      new_specimen = \<lparr>strokes = 2, is_placeholder = False\<rparr>, new_fitness = 2,
      new_score = s, now = 1500000, lock_seen_at_check = locked\<rparr>"

text \<open>
  A run over two images. On the first image one candidate is kept and three are not, which
  ends the work on it. On the second image the first candidate scores 9999999 and the
  second would score 30. Then the program is stopped.
\<close>

definition example_poll :: "real \<Rightarrow> poll" where
  "example_poll k =
     \<lparr>lock_polled = False, time_polled = k, stop_polled = False, next_image_polled = False\<rparr>"

definition example_first_image :: "(nat, nat) session" where
  "example_first_image =
     \<lparr>stop_seen_first = False, listed_files = [''a.png'', ''b.png''], random_draws = [0, 0],
      start_clock = 0,
      loop_passes = [example_tick False 1 40, example_tick False 2 60, example_tick False 3 60,
                     example_tick False 4 60],
      wait_clock = 10, wait_polls = [example_poll 70]\<rparr>"

definition example_second_image :: "(nat, nat) session" where
  "example_second_image =
     \<lparr>stop_seen_first = False, listed_files = [''a.png'', ''b.png''], random_draws = [0, 1, 0],
      start_clock = 100,
      loop_passes = [example_tick False 101 9999999, example_tick False 102 30],
      wait_clock = 110, wait_polls = [example_poll 170]\<rparr>"

definition example_stop :: "(nat, nat) session" where
  "example_stop =
     \<lparr>stop_seen_first = True, listed_files = [], random_draws = [], start_clock = 200,
      loop_passes = [], wait_clock = 200, wait_polls = []\<rparr>"

section \<open>The image selector\<close>

lemma retry_loop_other:
  "path \<noteq> previous \<Longrightarrow> retry_loop paths previous path draws = Some (Inr (path, draws))"
  by (simp add: retry_loop.simps)

lemma retry_loop_empty_paths: "retry_loop [] previous previous draws = Some (Inl IndexError)"
  by (simp add: retry_loop.simps)

lemma retry_loop_no_draws: "paths \<noteq> [] \<Longrightarrow> retry_loop paths previous previous [] = None"
  by (cases paths) (simp_all add: retry_loop.simps)

lemma retry_loop_draw:
  "paths \<noteq> [] \<Longrightarrow>
   retry_loop paths previous previous (r # rest) =
   retry_loop paths previous (paths ! (r mod length paths)) rest"
  by (cases paths) (simp_all add: retry_loop.simps [of _ previous previous])

lemma retry_loop_dropWhile:
  assumes "paths \<noteq> []"
  shows "retry_loop paths previous previous draws =
     (case dropWhile (\<lambda>r. paths ! (r mod length paths) = previous) draws of
        [] \<Rightarrow> None
      | r # rest \<Rightarrow> Some (Inr (paths ! (r mod length paths), rest)))"
proof (induction draws)
  case Nil
  show ?case using assms by (simp add: retry_loop_no_draws)
next
  case (Cons r rest)
  show ?case
  proof (cases "paths ! (r mod length paths) = previous")
    case True
    then show ?thesis using assms Cons.IH by (simp add: retry_loop_draw)
  next
    case False
    then show ?thesis using assms by (simp add: retry_loop_draw retry_loop_other)
  qed
qed

lemma join_valid_name:
  "valid_name f \<Longrightarrow> join a f = (if a = [] \<or> last a = CHR ''/'' then a @ f else a @ ''/'' @ f)"
  by (cases f) (auto simp: join_def valid_name_def)

lemma join_inject: "valid_name f \<Longrightarrow> valid_name g \<Longrightarrow> join a f = join a g \<Longrightarrow> f = g"
  by (simp add: join_valid_name split: if_splits)

lemma distinct_img_paths:
  "distinct files \<Longrightarrow> \<forall>f\<in>set files. valid_name f \<Longrightarrow> distinct (img_paths folder files)"
  unfolding img_paths_def
  by (simp add: distinct_map inj_on_def) (blast intro: join_inject)

lemma other_path_exists:
  assumes "distinct paths" "2 \<le> length paths"
  shows "\<exists>r<length paths. paths ! r \<noteq> (previous :: string)"
proof -
  have len: "0 < length paths" "1 < length paths"
    using assms(2) by auto
  have "paths ! 0 \<noteq> paths ! 1"
    using assms(1) len nth_eq_iff_index_eq [of paths 0 1] by simp
  then have "paths ! 0 \<noteq> previous \<or> paths ! 1 \<noteq> previous" by auto
  then show ?thesis using len by blast
qed


lemma get_random_image_path_result:
  assumes "fs \<noteq> []"
  shows "get_random_image_path folder fs previous ds =
     (case dropWhile (\<lambda>r. img_paths folder fs ! (r mod length fs) = previous) ds of
        [] \<Rightarrow> None
      | r # rest \<Rightarrow> Some (Inr (img_paths folder fs ! (r mod length fs), rest)))"
proof -
  have ne: "img_paths folder fs \<noteq> []"
    using assms by (simp add: img_paths_def)
  have len: "length (img_paths folder fs) = length fs"
    by (simp add: img_paths_def)
  show ?thesis
    unfolding get_random_image_path_def
    using retry_loop_dropWhile [OF ne, of previous ds] unfolding len .
qed

lemma get_random_image_path_all_same:
  assumes "fs \<noteq> []"
    and "\<forall>r\<in>set ds. img_paths folder fs ! (r mod length fs) = previous"
  shows "get_random_image_path folder fs previous ds = None"
proof -
  have dw: "dropWhile (\<lambda>r. img_paths folder fs ! (r mod length fs) = previous) ds = []"
    using assms(2) by (simp add: dropWhile_eq_Nil_conv)
  show ?thesis
    unfolding get_random_image_path_result [OF assms(1)] dw by simp
qed

text \<open>
  Claim C7. When the directory holds exactly one file and the previous path is that file's
  path, the retry loop of the selector never returns: whatever the random generator draws,
  and however many draws it is given, the selector is still running when the draws are used
  up.
\<close>

theorem single_file_selector_never_returns:
  "get_random_image_path image_folder [f] (join image_folder f) ds = None"
  by (rule get_random_image_path_all_same) (simp_all add: img_paths_def)

text \<open>The theorem at a folder that holds one file, with five draws.\<close>

theorem single_file_selector_never_returns_witness:
  "join ''img'' ''a.png'' = ''img/a.png''
   \<and> get_random_image_path ''img'' [''a.png''] ''img/a.png'' [0, 1, 2, 3, 4] = None"
  using single_file_selector_never_returns [of "''img''" "''a.png''" "[0, 1, 2, 3, 4]"]
  by (simp add: join_def)

text \<open>
  Claim C6. For a directory of two or more distinct files and any previous path: some draw
  selects a path other than the previous one; the selector keeps retrying exactly as long
  as the draws select the previous path; and as soon as a draw selects another path, it
  returns that path, which is one of the directory's paths and differs from the previous
  one. For the directory \<open>[A, B]\<close> and the previous path of \<open>A\<close> it returns the path of
  \<open>B\<close> once a draw selects the second file.
\<close>

theorem selector_returns_different_path:
  assumes "distinct fs" and "2 \<le> length fs" and "\<forall>f\<in>set fs. valid_name f"
  shows "(\<exists>r<length fs. img_paths folder fs ! r \<noteq> previous)
    \<and> ((\<forall>r\<in>set ds. img_paths folder fs ! (r mod length fs) = previous)
        \<longrightarrow> get_random_image_path folder fs previous ds = None)
    \<and> ((\<exists>r\<in>set ds. img_paths folder fs ! (r mod length fs) \<noteq> previous)
        \<longrightarrow> (\<exists>p rest. get_random_image_path folder fs previous ds = Some (Inr (p, rest))
              \<and> p \<in> set (img_paths folder fs) \<and> p \<noteq> previous))
    \<and> (fs = [A, B] \<and> previous = join folder A \<and> (\<exists>r\<in>set ds. odd r)
        \<longrightarrow> (\<exists>rest. get_random_image_path folder fs previous ds
                      = Some (Inr (join folder B, rest))))"
proof -
  let ?paths = "img_paths folder fs"
  let ?same = "\<lambda>r. ?paths ! (r mod length fs) = previous"
  have ne: "fs \<noteq> []" using assms(2) by auto
  have len: "length ?paths = length fs" by (simp add: img_paths_def)
  have res: "get_random_image_path folder fs previous ds =
     (case dropWhile ?same ds of
        [] \<Rightarrow> None
      | r # rest \<Rightarrow> Some (Inr (?paths ! (r mod length fs), rest)))"
    by (rule get_random_image_path_result [OF ne])
  have first: "\<exists>r<length fs. ?paths ! r \<noteq> previous"
    using other_path_exists [OF distinct_img_paths [OF assms(1,3)], of folder previous] assms(2)
    by (simp add: len)
  have second: "(\<forall>r\<in>set ds. ?same r) \<longrightarrow> get_random_image_path folder fs previous ds = None"
    using get_random_image_path_all_same [OF ne] by blast
  have third: "\<exists>p rest. get_random_image_path folder fs previous ds = Some (Inr (p, rest))
              \<and> p \<in> set ?paths \<and> p \<noteq> previous"
    if ex: "\<exists>r\<in>set ds. \<not> ?same r"
  proof -
    from ex have "dropWhile ?same ds \<noteq> []" by (simp add: dropWhile_eq_Nil_conv)
    then obtain r rest where dw: "dropWhile ?same ds = r # rest"
      by (cases "dropWhile ?same ds") auto
    then have "\<not> ?same r" using hd_dropWhile [of ?same ds] by simp
    moreover have "?paths ! (r mod length fs) \<in> set ?paths"
      using ne by (simp add: len)
    ultimately show ?thesis unfolding res dw by simp
  qed
  have fourth: "\<exists>rest. get_random_image_path folder fs previous ds
                      = Some (Inr (join folder B, rest))"
    if sc: "fs = [A, B] \<and> previous = join folder A \<and> (\<exists>r\<in>set ds. odd r)"
  proof -
    from sc have fs: "fs = [A, B]" and prev: "previous = join folder A" by simp_all
    from sc obtain r where r: "r \<in> set ds" "odd r" by blast
    have neq: "join folder B \<noteq> join folder A"
      using distinct_img_paths [OF assms(1,3), of folder] by (auto simp: fs img_paths_def)
    have "r mod 2 = 1" using r(2) by (simp add: odd_iff_mod_2_eq_one)
    moreover have "length fs = 2" by (simp add: fs)
    ultimately have "?paths ! (r mod length fs) = ?paths ! 1" by simp
    also have "\<dots> = join folder B" by (simp add: fs img_paths_def)
    finally have "\<not> ?same r" using neq by (simp add: prev)
    with r(1) have "\<exists>r\<in>set ds. \<not> ?same r" by blast
    from third [OF this] obtain p rest where
      p: "get_random_image_path folder fs previous ds = Some (Inr (p, rest))"
         "p \<in> set ?paths" "p \<noteq> previous" by blast
    then have "p = join folder B" by (auto simp: fs prev img_paths_def)
    with p(1) show ?thesis by blast
  qed
  show ?thesis using first second third fourth by blast
qed

text \<open>The theorem at a directory of two files, with the draws 0, 2, 1, 0.\<close>

theorem selector_returns_different_path_witness:
  "distinct [''a.png'', ''b.png''] \<and> 2 \<le> length [''a.png'', ''b.png'']
   \<and> valid_name ''a.png'' \<and> valid_name ''b.png''
   \<and> (\<exists>rest. get_random_image_path ''img'' [''a.png'', ''b.png''] ''img/a.png'' [0, 2, 1, 0]
              = Some (Inr (''img/b.png'', rest)))"
  using selector_returns_different_path
    [of "[''a.png'', ''b.png'']" "''img''" "''img/a.png''" "[0, 2, 1, 0]" "''a.png''" "''b.png''"]
  by (simp add: valid_name_def join_def)

section \<open>The per-image loop\<close>

lemma iteration_reject:
  "new_score t \<ge> score st \<Longrightarrow>
   iteration st cnt iv t =
     (st\<lparr>update_time_microseconds := (now t - last_update_time cnt) mod 1000000\<rparr>,
      \<lparr>n_iterations_with_same_score = n_iterations_with_same_score cnt + 1,
       last_update_time = now t\<rparr>,
      iv\<lparr>generation_index := generation_index iv + 1\<rparr>)"
  by (simp add: iteration_def keep_if_improvement_def)

lemma iteration_accept:
  "new_score t < score st \<Longrightarrow>
   iteration st cnt iv t =
     (st\<lparr>score := new_score t, specimen := new_specimen t, image_available := True,
         update_time_microseconds := (now t - last_update_time cnt) mod 1000000\<rparr>,
      \<lparr>n_iterations_with_same_score = 0, last_update_time = now t\<rparr>,
      iv\<lparr>generation_index := generation_index iv + 1, fitness := new_fitness t\<rparr>)"
  by (simp add: iteration_def keep_if_improvement_def)

text \<open>
  Claim C1. In every pass of the per-image loop the candidate of \<^verbatim>\<open>iterate_image\<close>
  replaces the shared specimen and score exactly when its score is strictly below the
  shared score; then the fitness state is the candidate's, \<^verbatim>\<open>image_available\<close> is true
  and the stagnation counter is zero. Otherwise the specimen, the score, the fitness state
  and \<^verbatim>\<open>image_available\<close> are as before the pass.
\<close>

theorem acceptance_rule:
  assumes "iteration st cnt iv t = (st', cnt', iv')"
  shows "if new_score t < score st
         then specimen st' = new_specimen t \<and> score st' = new_score t
              \<and> fitness iv' = new_fitness t \<and> image_available st'
              \<and> n_iterations_with_same_score cnt' = 0
         else specimen st' = specimen st \<and> score st' = score st
              \<and> fitness iv' = fitness iv \<and> image_available st' = image_available st"
proof (cases "new_score t < score st")
  case True
  then show ?thesis using assms iteration_accept [OF True, of cnt iv] by auto
next
  case False
  then have "new_score t \<ge> score st" by simp
  from iteration_reject [OF this, of cnt iv] show ?thesis using assms False by auto
qed

text \<open>
  The theorem at a shared score of 50 and a candidate of score 40.
\<close>

theorem acceptance_rule_witness:
  "iteration example_state example_counters example_vars (example_tick False 1 40) =
     (fst (iteration example_state example_counters example_vars (example_tick False 1 40)),
      fst (snd (iteration example_state example_counters example_vars (example_tick False 1 40))),
      snd (snd (iteration example_state example_counters example_vars (example_tick False 1 40))))
   \<and> new_score (example_tick False 1 40) < score example_state
   \<and> score (fst (iteration example_state example_counters example_vars (example_tick False 1 40))) = 40
   \<and> specimen (fst (iteration example_state example_counters example_vars (example_tick False 1 40)))
       = \<lparr>strokes = 2, is_placeholder = False\<rparr>"
  using acceptance_rule [of example_state example_counters example_vars "example_tick False 1 40"
      "fst (iteration example_state example_counters example_vars (example_tick False 1 40))"
      "fst (snd (iteration example_state example_counters example_vars (example_tick False 1 40)))"
      "snd (snd (iteration example_state example_counters example_vars (example_tick False 1 40)))"]
  by (simp add: example_state_def example_tick_def)

text \<open>
  Claim C3. A pass adds exactly one to the stagnation counter when the candidate's score is
  greater than or equal to the shared score, and sets it to zero when it is strictly lower.
  The counter after the pass is the same whatever the clock readings of the pass, the time
  of the last update, the start time of the image and the stored latency are.
\<close>

theorem stagnation_counter_step:
  "n_iterations_with_same_score (fst (snd (iteration st cnt iv t))) =
     (if new_score t \<ge> score st then n_iterations_with_same_score cnt + 1 else 0)
   \<and> n_iterations_with_same_score
       (fst (snd (iteration (st\<lparr>update_time_microseconds := u\<rparr>)
                            (cnt\<lparr>last_update_time := l\<rparr>)
                            (iv\<lparr>image_start_time := i\<rparr>)
                            (t\<lparr>clock := k, now := d\<rparr>)))) =
     n_iterations_with_same_score (fst (snd (iteration st cnt iv t)))"
  by (cases "new_score t \<ge> score st") (simp_all add: iteration_reject iteration_accept not_le)

text \<open>
  The theorem at a counter of 2 and a shared score of 50: a candidate of score 50 (a tie)
  gives 3, a candidate of score 49 gives 0.
\<close>

theorem stagnation_counter_step_witness:
  "n_iterations_with_same_score
     (fst (snd (iteration example_state example_counters example_vars (example_tick False 1 50)))) = 3
   \<and> n_iterations_with_same_score
     (fst (snd (iteration example_state example_counters example_vars (example_tick False 1 49)))) = 0"
  using stagnation_counter_step [of example_state example_counters example_vars "example_tick False 1 50"]
    stagnation_counter_step [of example_state example_counters example_vars "example_tick False 1 49"]
  by (simp add: example_state_def example_tick_def example_counters_def)

lemma iteration_score:
  "iteration st cnt iv t = (st', cnt', iv') \<Longrightarrow> score st' = min (score st) (new_score t)"
  by (cases "new_score t \<ge> score st") (auto simp: iteration_reject iteration_accept not_le)

lemma image_loop_score_le:
  "image_loop fin st cnt iv ts = Some (st', cnt', iv') \<Longrightarrow> score st' \<le> score st"
proof (induction ts arbitrary: st cnt iv)
  case Nil
  then show ?case by simp
next
  case (Cons t ts)
  obtain s2 cnt2 iv2 where it: "iteration (observe st t) cnt iv t = (s2, cnt2, iv2)"
    by (cases "iteration (observe st t) cnt iv t") auto
  have s2: "score s2 \<le> score st"
    using iteration_score [OF it] by (simp add: observe_def)
  show ?case
  proof (cases "loop_condition (observe st t) iv (clock t)")
    case False
    with Cons.prems show ?thesis by (auto simp: observe_def)
  next
    case True
    show ?thesis
    proof (cases "\<not> lock_seen_at_check t \<and> fin (n_iterations_with_same_score cnt2) (score s2)")
      case True
      with Cons.prems \<open>loop_condition (observe st t) iv (clock t)\<close> it s2 show ?thesis
        by auto
    next
      case False
      with Cons.prems \<open>loop_condition (observe st t) iv (clock t)\<close> it
      have "image_loop fin (s2\<lparr>lock_image := lock_seen_at_check t\<rparr>) cnt2 iv2 ts = Some (st', cnt', iv')"
        by auto
      from Cons.IH [OF this] s2 show ?thesis by simp
    qed
  qed
qed

text \<open>
  Claim C2. Within the work on one image the shared score never increases: it is no
  higher after a pass than before, a pass that changes the specimen puts the candidate in
  its place and the candidate's score is strictly below the score stored before, and the
  score with which the per-image loop ends is no higher than the one it started with.
\<close>

theorem score_non_increasing:
  "(iteration st cnt iv t = (st1, cnt1, iv1) \<longrightarrow>
      score st1 \<le> score st
      \<and> (specimen st1 \<noteq> specimen st \<longrightarrow>
           specimen st1 = new_specimen t \<and> new_score t < score st \<and> score st1 = new_score t))
   \<and> (image_loop fin st cnt iv ts = Some (st2, cnt2, iv2) \<longrightarrow> score st2 \<le> score st)"
proof -
  have "score st1 \<le> score st
      \<and> (specimen st1 \<noteq> specimen st \<longrightarrow>
           specimen st1 = new_specimen t \<and> new_score t < score st \<and> score st1 = new_score t)"
    if "iteration st cnt iv t = (st1, cnt1, iv1)"
    using that by (cases "new_score t \<ge> score st") (auto simp: iteration_reject iteration_accept not_le)
  then show ?thesis using image_loop_score_le by blast
qed


text \<open>
  The theorem at a shared score of 50, for a candidate of score 60 and one of score 40.
\<close>

theorem score_non_increasing_witness:
  "score (fst (iteration example_state example_counters example_vars (example_tick False 1 60)))
     \<le> score example_state
   \<and> score (fst (iteration example_state example_counters example_vars (example_tick False 1 40)))
     \<le> score example_state"
  using score_non_increasing [of example_state example_counters example_vars "example_tick False 1 60"
      "fst (iteration example_state example_counters example_vars (example_tick False 1 60))"
      "fst (snd (iteration example_state example_counters example_vars (example_tick False 1 60)))"
      "snd (snd (iteration example_state example_counters example_vars (example_tick False 1 60)))"]
    score_non_increasing [of example_state example_counters example_vars "example_tick False 1 40"
      "fst (iteration example_state example_counters example_vars (example_tick False 1 40))"
      "fst (snd (iteration example_state example_counters example_vars (example_tick False 1 40)))"
      "snd (snd (iteration example_state example_counters example_vars (example_tick False 1 40)))"]
  by simp

lemma image_loop_locked:
  assumes "\<forall>t\<in>set ts. lock_seen t \<and> lock_seen_at_check t"
  shows "(image_loop fin st cnt iv ts = None) = (\<forall>t\<in>set ts. \<not> stop_seen t \<and> \<not> next_image_seen t)"
    and "image_loop fin st cnt iv ts = Some (st', cnt', iv') \<Longrightarrow> flag_stop st' \<or> flag_next_image st'"
  using assms
proof (induction ts arbitrary: st cnt iv)
  case Nil
  { case 1 show ?case by simp }
  { case 2 then show ?case by simp }
next
  case (Cons t ts)
  { case 1
    then have lk: "lock_seen t" "lock_seen_at_check t"
      and rest: "\<forall>t\<in>set ts. lock_seen t \<and> lock_seen_at_check t" by simp_all
    obtain s2 cnt2 iv2 where it: "iteration (observe st t) cnt iv t = (s2, cnt2, iv2)"
      by (cases "iteration (observe st t) cnt iv t") auto
    show ?case
      using lk it Cons.IH(1) [OF rest]
      by (auto simp: loop_condition_def observe_def Let_def) }
  { case 2
    then have lk: "lock_seen t" "lock_seen_at_check t"
      and rest: "\<forall>t\<in>set ts. lock_seen t \<and> lock_seen_at_check t" by simp_all
    obtain s2 cnt2 iv2 where it: "iteration (observe st t) cnt iv t = (s2, cnt2, iv2)"
      by (cases "iteration (observe st t) cnt iv t") auto
    show ?case
    proof (cases "loop_condition (observe st t) iv (clock t)")
      case False
      with 2(1) lk show ?thesis by (auto simp: loop_condition_def observe_def Let_def)
    next
      case True
      with 2(1) lk it
      have "image_loop fin (s2\<lparr>lock_image := lock_seen_at_check t\<rparr>) cnt2 iv2 ts = Some (st', cnt', iv')"
        by (simp add: Let_def)
      from Cons.IH(2) [OF this rest] show ?thesis .
    qed }
qed

text \<open>
  Claim C4. While \<^verbatim>\<open>lock_image\<close> is read as true, the per-image loop does not end on
  elapsed time and does not ask the convergence predicate: the loop condition is then
  "neither \<^verbatim>\<open>flag_stop\<close> nor \<^verbatim>\<open>flag_next_image\<close>", whatever the clock reads; the loop is
  still running after all passes of the script exactly when none of them saw one of the two
  flags, whatever the clock and the convergence predicate; and when it has ended, one of the
  two flags is set.
\<close>

theorem lock_overrides_timeout:
  assumes "\<forall>t\<in>set ts. lock_seen t \<and> lock_seen_at_check t"
  shows "(\<forall>t\<in>set ts. loop_condition (observe st t) iv (clock t)
                       = (\<not> stop_seen t \<and> \<not> next_image_seen t))
    \<and> ((image_loop fin st cnt iv ts = None)
        = (\<forall>t\<in>set ts. \<not> stop_seen t \<and> \<not> next_image_seen t))
    \<and> (\<forall>st' cnt' iv'. image_loop fin st cnt iv ts = Some (st', cnt', iv')
          \<longrightarrow> flag_stop st' \<or> flag_next_image st')"
proof -
  have "\<forall>t\<in>set ts. loop_condition (observe st t) iv (clock t)
                       = (\<not> stop_seen t \<and> \<not> next_image_seen t)"
    using assms by (simp add: loop_condition_def observe_def)
  then show ?thesis
    using image_loop_locked [OF assms] by blast
qed

text \<open>
  The theorem at two locked passes beyond the time budget, with a convergence predicate
  that always reports done: the loop is still running.
\<close>

theorem lock_overrides_timeout_witness:
  "lock_seen (example_tick True 700 60) \<and> lock_seen_at_check (example_tick True 700 60)
   \<and> MAXIMUM_TIME_PER_IMAGE_SECONDS < clock (example_tick True 700 60) - image_start_time example_vars
   \<and> image_loop (\<lambda>n s. True) example_state example_counters example_vars
        [example_tick True 700 60, example_tick True 5000 60] = None"
  using lock_overrides_timeout [of "[example_tick True 700 60, example_tick True 5000 60]"
      example_state example_vars "\<lambda>n s. True" example_counters]
  by (simp add: example_tick_def example_vars_def MAXIMUM_TIME_PER_IMAGE_SECONDS_def)

section \<open>The wait between two images\<close>

lemma wait_loop_locked:
  "\<forall>p\<in>set ps. lock_polled p \<Longrightarrow> wait_loop st w ps = None"
  by (induction ps arbitrary: st) simp_all

text \<open>
  Claim C5. The claim is that a poll which sees the lock and \<^verbatim>\<open>flag_stop\<close> (or
  \<^verbatim>\<open>flag_next_image\<close>) ends the wait. The code does not: as long as the polls see the
  lock, the wait goes on, also when every one of them sees \<^verbatim>\<open>flag_stop\<close>. Without the
  lock the same poll ends the wait at once.
\<close>

theorem wait_ignores_stop_while_locked:
  "wait_for_next_image st w
     (replicate k \<lparr>lock_polled = True, time_polled = c, stop_polled = True, next_image_polled = nx\<rparr>)
   = None
   \<and> wait_for_next_image st w
     (\<lparr>lock_polled = False, time_polled = c, stop_polled = True, next_image_polled = nx\<rparr> # ps)
   = Some (st\<lparr>flag_stop := True, flag_next_image := nx, lock_image := False\<rparr>)"
  by (simp add: wait_for_next_image_def wait_loop_locked)

text \<open>
  Three polls, each seeing the lock and \<^verbatim>\<open>flag_stop\<close>, 100 seconds into the wait.
\<close>

theorem wait_ignores_stop_while_locked_witness:
  "wait_for_next_image example_state 0
     (replicate 3 \<lparr>lock_polled = True, time_polled = 100, stop_polled = True, next_image_polled = False\<rparr>)
   = None"
  using wait_ignores_stop_while_locked [of example_state 0 3 100 False]
  by simp

section \<open>An empty folder\<close>

lemma get_random_image_path_empty:
  "get_random_image_path image_folder [] previous ds = Some (Inl IndexError)"
  by (simp add: get_random_image_path_def img_paths_def retry_loop_empty_paths)

lemma initialize_empty:
  "initialize_for_next_image c image_folder bs st [] ds = Some (Inl IndexError)"
  by (simp add: initialize_for_next_image_def get_random_image_path_empty)

text \<open>
  Claim C8, as amended. When the folder lists no file at the moment an image is to be
  selected, which is reached only when \<^verbatim>\<open>flag_stop\<close> is not set at line 53,
  \<^verbatim>\<open>random.choice\<close> raises \<open>IndexError\<close> in the selector and the program ends with it
  before any pass of the per-image loop for that image: the result is the same when the
  script holds no pass at all. In particular this is how the program ends when the folder
  is empty at its start.
\<close>

theorem empty_directory_raises_IndexError:
  assumes "listed_files x = []" and "\<not> stop_seen_first x"
  shows "outer_loop c image_folder bs st cnt (x # xs) = Some (Inl IndexError)
    \<and> outer_loop c image_folder bs st cnt (x\<lparr>loop_passes := []\<rparr> # xs) = Some (Inl IndexError)
    \<and> run_continuous_finch c canvas empty_image defaults tm image_folder bs (x # xs)
        = Some (Inl IndexError)"
  using assms by (simp add: run_continuous_finch_def initialize_empty)

text \<open>
  The theorem at a program started on an empty folder.
\<close>

theorem empty_directory_raises_IndexError_witness:
  "run_continuous_finch example_collaborators 0 0 example_state 0 ''img'' [0]
     [\<lparr>stop_seen_first = False, listed_files = [], random_draws = [0, 0], start_clock = 0,
       loop_passes = [], wait_clock = 0, wait_polls = []\<rparr>]
   = Some (Inl IndexError)"
  using empty_directory_raises_IndexError
    [of "\<lparr>stop_seen_first = False, listed_files = [], random_draws = [0, 0], start_clock = 0,
           loop_passes = [], wait_clock = 0, wait_polls = []\<rparr>"
        example_collaborators "''img''" "[0]" example_state example_counters "[]" 0 0 example_state 0]
  by simp

text \<open>
  Claim C8 as stated fails: on an empty folder the program does not end with
  \<open>NoCandidateImages\<close>, and with \<^verbatim>\<open>flag_stop\<close> already set at line 53 it does not fail
  at all but returns.
\<close>

theorem empty_directory_error_counterexample:
  "run_continuous_finch example_collaborators 0 0 example_state 0 ''img'' [0]
     [\<lparr>stop_seen_first = False, listed_files = [], random_draws = [0, 0], start_clock = 0,
       loop_passes = [example_tick False 1 40], wait_clock = 0, wait_polls = []\<rparr>]
   \<noteq> Some (Inl NoCandidateImages)
   \<and> run_continuous_finch example_collaborators 0 0 example_state 0 ''img'' [0]
     [\<lparr>stop_seen_first = True, listed_files = [], random_draws = [0, 0], start_clock = 0,
       loop_passes = [example_tick False 1 40], wait_clock = 0, wait_polls = []\<rparr>]
   = Some (Inr ((initial_shared_state_object example_collaborators 0 0 example_state)
                  \<lparr>flag_stop := True\<rparr>,
                \<lparr>n_iterations_with_same_score = 0, last_update_time = 0\<rparr>))"
  by (simp add: run_continuous_finch_def initialize_empty)


section \<open>Writes of the score and the specimen\<close>

lemma initialize_result:
  assumes "initialize_for_next_image c image_folder bs st fs ds = Some (Inr ((s1, tg, gr, fit), rest))"
  shows "score s1 = 9999999"
    and "specimen s1 = (if is_placeholder (specimen st)
                        then (get_initial_specimen c tg False)\<lparr>is_placeholder := False\<rparr>
                        else specimen st)"
  using assms
  by (auto simp: initialize_for_next_image_def Let_def
           split: option.splits sum.splits prod.splits if_splits)

lemma wait_loop_keeps:
  "wait_loop st w ps = Some st' \<Longrightarrow> score st' = score st \<and> specimen st' = specimen st"
proof (induction ps arbitrary: st)
  case Nil
  then show ?case by simp
next
  case (Cons p ps)
  let ?s1 = "st\<lparr>flag_stop := stop_polled p, flag_next_image := next_image_polled p,
                  lock_image := lock_polled p\<rparr>"
  show ?case
  proof (cases "wait_loop st w (p # ps) = Some ?s1")
    case True
    with Cons.prems show ?thesis by auto
  next
    case False
    with Cons.prems have "wait_loop ?s1 w ps = Some st'"
      by (simp add: Let_def split: if_splits)
    from Cons.IH [OF this] show ?thesis by simp
  qed
qed

text \<open>
  Claim C9, as amended. A pass of the per-image loop leaves both the score and the specimen
  as they are, or replaces both by the candidate's, and the second only when the
  candidate's score is strictly lower. The wait changes neither. The initialisation for
  the next image writes the score alone: it sets it to 9999999 whatever it was, and it
  replaces the specimen only when the specimen is the placeholder.
\<close>

theorem score_and_specimen_writes:
  "(iteration st cnt iv t = (st1, cnt1, iv1) \<longrightarrow>
      (score st1 = score st \<and> specimen st1 = specimen st)
      \<or> (new_score t < score st \<and> score st1 = new_score t \<and> specimen st1 = new_specimen t))
   \<and> (wait_for_next_image st w ps = Some st2 \<longrightarrow>
        score st2 = score st \<and> specimen st2 = specimen st)
   \<and> (initialize_for_next_image c image_folder bs st fs ds = Some (Inr ((s1, tg, gr, fit), rest)) \<longrightarrow>
        score s1 = 9999999
        \<and> specimen s1 = (if is_placeholder (specimen st)
                           then (get_initial_specimen c tg False)\<lparr>is_placeholder := False\<rparr>
                           else specimen st))"
proof -
  have "(score st1 = score st \<and> specimen st1 = specimen st)
      \<or> (new_score t < score st \<and> score st1 = new_score t \<and> specimen st1 = new_specimen t)"
    if "iteration st cnt iv t = (st1, cnt1, iv1)"
    using that by (cases "new_score t \<ge> score st") (auto simp: iteration_reject iteration_accept not_le)
  then show ?thesis
    using wait_loop_keeps [of st w ps st2] initialize_result [of c image_folder bs st fs ds s1 tg gr fit rest]
    by (simp add: wait_for_next_image_def)
qed

lemma initialize_example:
  "initialize_for_next_image example_collaborators ''img'' [0] example_state
     [''a.png'', ''b.png''] [1, 0]
   = Some (Inr ((example_state\<lparr>img_path := ''img/b.png'', score := 9999999\<rparr>, 9, 9, 0), []))"
  by (simp add: initialize_for_next_image_def get_random_image_path_def img_paths_def join_def
        retry_loop.simps example_state_def example_collaborators_def prep_image_def Let_def)

text \<open>
  Claim C9 as stated fails: initialising for the next image with a specimen that is not the
  placeholder and a score of 50 leaves the specimen as it is and raises the score to
  9999999.
\<close>

theorem initialization_writes_score_alone_counterexample:
  "initialize_for_next_image example_collaborators ''img'' [0] example_state
     [''a.png'', ''b.png''] [1, 0]
   = Some (Inr ((example_state\<lparr>img_path := ''img/b.png'', score := 9999999\<rparr>, 9, 9, 0), []))
   \<and> specimen (example_state\<lparr>img_path := ''img/b.png'', score := 9999999\<rparr>) = specimen example_state
   \<and> score (example_state\<lparr>img_path := ''img/b.png'', score := 9999999\<rparr>) \<noteq> score example_state
   \<and> score example_state < score (example_state\<lparr>img_path := ''img/b.png'', score := 9999999\<rparr>)"
  using initialize_example by (simp add: example_state_def)

text \<open>
  The theorem at that initialisation and at a pass with a candidate of score 40.
\<close>

theorem score_and_specimen_writes_witness:
  "score (example_state\<lparr>img_path := ''img/b.png'', score := 9999999\<rparr>) = 9999999
   \<and> specimen (example_state\<lparr>img_path := ''img/b.png'', score := 9999999\<rparr>)
       = \<lparr>strokes = 1, is_placeholder = False\<rparr>
   \<and> score (fst (iteration example_state example_counters example_vars (example_tick False 1 40))) = 40"
  using score_and_specimen_writes [of example_state example_counters example_vars
      "example_tick False 1 40"
      "fst (iteration example_state example_counters example_vars (example_tick False 1 40))"
      "fst (snd (iteration example_state example_counters example_vars (example_tick False 1 40)))"
      "snd (snd (iteration example_state example_counters example_vars (example_tick False 1 40)))"
      0 "[]" example_state
      example_collaborators "''img''" "[0]" "[''a.png'', ''b.png'']" "[1, 0]"
      "example_state\<lparr>img_path := ''img/b.png'', score := 9999999\<rparr>" 9 9 0 "[]"]
    initialize_example
  by (simp add: example_state_def example_tick_def iteration_accept)

section \<open>The stagnation counter across images\<close>

lemma image_loop_Cons:
  "image_loop fin st cnt iv (t # ts) =
     (if \<not> loop_condition (observe st t) iv (clock t) then Some (observe st t, cnt, iv)
      else (case iteration (observe st t) cnt iv t of
              (s2, cnt2, iv2) \<Rightarrow>
                if \<not> lock_seen_at_check t \<and> fin (n_iterations_with_same_score cnt2) (score s2)
                then Some (s2\<lparr>lock_image := lock_seen_at_check t\<rparr>, cnt2, iv2)
                else image_loop fin (s2\<lparr>lock_image := lock_seen_at_check t\<rparr>) cnt2 iv2 ts))"
  by (simp add: Let_def split: prod.splits)

lemma image_loop_no_acceptance:
  "image_loop fin st cnt iv ts = Some (st', cnt', iv') \<Longrightarrow> score st' = score st \<Longrightarrow>
   n_iterations_with_same_score cnt' + generation_index iv
     = n_iterations_with_same_score cnt + generation_index iv'"
proof (induction ts arbitrary: st cnt iv)
  case Nil
  then show ?case by simp
next
  case (Cons t ts)
  obtain s2 cnt2 iv2 where it: "iteration (observe st t) cnt iv t = (s2, cnt2, iv2)"
    by (cases "iteration (observe st t) cnt iv t") auto
  let ?s3 = "s2\<lparr>lock_image := lock_seen_at_check t\<rparr>"
  show ?case
  proof (cases "loop_condition (observe st t) iv (clock t)")
    case False
    with Cons.prems(1) show ?thesis by (simp add: image_loop_Cons)
  next
    case True
    have s2: "score s2 = min (score st) (new_score t)"
      using iteration_score [OF it] by (simp add: observe_def)
    have le: "score st' \<le> score s2"
    proof (cases "\<not> lock_seen_at_check t \<and> fin (n_iterations_with_same_score cnt2) (score s2)")
      case True
      with Cons.prems(1) \<open>loop_condition (observe st t) iv (clock t)\<close> it show ?thesis
        by (auto simp: image_loop_Cons)
    next
      case False
      with Cons.prems(1) \<open>loop_condition (observe st t) iv (clock t)\<close> it
      have "image_loop fin ?s3 cnt2 iv2 ts = Some (st', cnt', iv')"
        by (simp add: image_loop_Cons)
      from image_loop_score_le [OF this] show ?thesis by simp
    qed
    with s2 Cons.prems(2) have rej: "new_score t \<ge> score (observe st t)" and eq: "score s2 = score st"
      by (simp_all add: observe_def)
    from iteration_reject [OF rej, of cnt iv] it
    have step: "n_iterations_with_same_score cnt2 = n_iterations_with_same_score cnt + 1"
               "generation_index iv2 = generation_index iv + 1"
      by auto
    show ?thesis
    proof (cases "\<not> lock_seen_at_check t \<and> fin (n_iterations_with_same_score cnt2) (score s2)")
      case True
      with Cons.prems(1) \<open>loop_condition (observe st t) iv (clock t)\<close> it step show ?thesis
        by (auto simp: image_loop_Cons)
    next
      case False
      with Cons.prems(1) \<open>loop_condition (observe st t) iv (clock t)\<close> it
      have run: "image_loop fin ?s3 cnt2 iv2 ts = Some (st', cnt', iv')"
        by (simp add: image_loop_Cons)
      have "score st' = score ?s3" using Cons.prems(2) eq by simp
      from Cons.IH [OF run this] step show ?thesis by simp
    qed
  qed
qed

text \<open>
  Claim C10. The stagnation counter is not reset when the program turns to a new image.
  When a pass of the outer loop completes (initialisation, per-image loop, wait), the
  per-image loop of that image has started from the counter as the previous image left it,
  and the next image starts from the counter as this loop leaves it. The initialisation
  resets the score to 9999999 but not the counter: as long as no candidate has been kept on
  the new image (the score is still 9999999), the counter is the value carried over plus the
  number of passes made on the new image, and it is with this value that the convergence
  predicate is asked.
\<close>

theorem stagnation_counter_carried_over:
  assumes "\<not> stop_seen_first x"
    and "initialize_for_next_image c image_folder bs (st\<lparr>flag_stop := False\<rparr>)
           (listed_files x) (random_draws x) = Some (Inr ((s1, tg, gr, fit), rest))"
    and "image_loop (is_drawing_finished c) s1 cnt
           \<lparr>fitness = fit, generation_index = 0, image_start_time = start_clock x\<rparr>
           (loop_passes x) = Some (s2, cnt2, iv2)"
    and "wait_for_next_image s2 (wait_clock x) (wait_polls x) = Some s3"
  shows "outer_loop c image_folder bs st cnt (x # xs)
           = outer_loop c image_folder bs (s3\<lparr>flag_next_image := False\<rparr>) cnt2 xs
    \<and> score s1 = 9999999
    \<and> (score s2 = 9999999 \<longrightarrow>
         n_iterations_with_same_score cnt2
           = n_iterations_with_same_score cnt + generation_index iv2)"
proof -
  have a: "outer_loop c image_folder bs st cnt (x # xs)
           = outer_loop c image_folder bs (s3\<lparr>flag_next_image := False\<rparr>) cnt2 xs"
    using assms by simp
  have b: "score s1 = 9999999"
    using initialize_result(1) [OF assms(2)] .
  have "n_iterations_with_same_score cnt2
           = n_iterations_with_same_score cnt + generation_index iv2"
    if "score s2 = 9999999"
    using image_loop_no_acceptance [OF assms(3)] that b by simp
  with a b show ?thesis by blast
qed


lemmas example_defs =
  example_collaborators_def example_state_def example_tick_def example_poll_def
  example_first_image_def example_second_image_def example_stop_def

lemmas run_defs =
  run_continuous_finch_def initial_shared_state_object_def initialize_for_next_image_def
  get_random_image_path_def img_paths_def join_def retry_loop.simps prep_image_def
  image_loop_Cons loop_condition_def observe_def iteration_def keep_if_improvement_def
  wait_for_next_image_def MAXIMUM_TIME_PER_IMAGE_SECONDS_def WAIT_BETWEEN_IMAGES_SECONDS_def
  Let_def

text \<open>
  The theorem in a run over two images, with a drawing finished after three passes without
  improvement. The first image ends with the counter at 3. On the second image the first
  candidate is not kept, the counter reaches 4, and the work on the image ends after this
  single pass: the second candidate, of score 30, is never asked for.
\<close>

theorem stagnation_counter_carried_over_witness:
  "run_continuous_finch example_collaborators 0 0 example_state 0 ''img'' [0]
     [example_first_image, example_second_image, example_stop]
   = Some (Inr (\<lparr>img_path = ''img/b.png'', brush = 0, target_image = 9,
                  specimen = \<lparr>strokes = 2, is_placeholder = False\<rparr>,
                  score = 9999999, image_available = True,
                  update_time_microseconds = 0, flag_stop = True,
                  flag_next_image = False, lock_image = False\<rparr>,
                \<lparr>n_iterations_with_same_score = 4, last_update_time = 1500000\<rparr>))"
proof -
  let ?c = example_collaborators
  let ?st1 = "\<lparr>img_path = ''img/a.png'', brush = 0 :: nat, target_image = 9 :: nat,
               specimen = \<lparr>strokes = 2 :: nat, is_placeholder = False\<rparr>,
               score = 40, image_available = True,
               update_time_microseconds = 0, flag_stop = False,
               flag_next_image = False, lock_image = False\<rparr>"
  let ?s1 = "?st1\<lparr>img_path := ''img/b.png'', score := 9999999\<rparr>"
  let ?cnt1 = "\<lparr>n_iterations_with_same_score = 3, last_update_time = 1500000\<rparr>"
  let ?cnt2 = "\<lparr>n_iterations_with_same_score = 4, last_update_time = 1500000\<rparr>"
  let ?iv2 = "\<lparr>fitness = 0 :: nat, generation_index = 1, image_start_time = 100\<rparr>"
  have first: "run_continuous_finch ?c 0 0 example_state 0 ''img'' [0]
       [example_first_image, example_second_image, example_stop]
     = outer_loop ?c ''img'' [0] ?st1 ?cnt1 [example_second_image, example_stop]"
    by (simp add: example_defs run_defs)
  have stop: "\<not> stop_seen_first example_second_image"
    by (simp add: example_defs)
  have init: "initialize_for_next_image ?c ''img'' [0] (?st1\<lparr>flag_stop := False\<rparr>)
       (listed_files example_second_image) (random_draws example_second_image)
     = Some (Inr ((?s1, 9, 9, 0), []))"
    by (simp add: example_defs run_defs)
  have loop: "image_loop (is_drawing_finished ?c) ?s1 ?cnt1
       \<lparr>fitness = 0, generation_index = 0, image_start_time = start_clock example_second_image\<rparr>
       (loop_passes example_second_image)
     = Some (?s1, ?cnt2, ?iv2)"
    by (simp add: example_defs run_defs)
  have wait: "wait_for_next_image ?s1 (wait_clock example_second_image)
       (wait_polls example_second_image) = Some ?s1"
    by (simp add: example_defs run_defs)
  from stagnation_counter_carried_over [OF stop init loop wait, of "[example_stop]"]
  have "outer_loop ?c ''img'' [0] ?st1 ?cnt1 [example_second_image, example_stop]
     = outer_loop ?c ''img'' [0] (?s1\<lparr>flag_next_image := False\<rparr>) ?cnt2 [example_stop]"
    by simp
  with first show ?thesis
    by (simp add: example_stop_def)
qed

end
